theory Spec2Isabelle
  imports Complex_Main
begin

section \<open>The Fischer-Koch S surface pipeline\<close>

text \<open>
  The program samples the implicit function of the Fischer-Koch S surface on a cubic
  lattice, smooths the samples, extracts an isosurface and moves the vertices into world
  coordinates (\<^verbatim>\<open>generate_surface\<close> in \<^verbatim>\<open>fischer_koch_s.py\<close>; the copy in
  \<^verbatim>\<open>fischer_koch_s_save.py\<close> is the same function). Python floats are modelled as
  real numbers: the rounding of double precision arithmetic is not part of the model.
  The conversion of the volume to single precision inside the extractor decides which
  levels it accepts, so it is kept, as a parameter. The three print statements of
  \<^verbatim>\<open>generate_surface\<close> are console logging and are left out.
\<close>

subsection \<open>Data\<close>

type_synonym vertex = "real \<times> real \<times> real"
type_synonym face = "nat \<times> nat \<times> nat"
type_synonym mesh = "vertex list \<times> face list"
type_synonym volume = "real list list list"

text \<open>The exceptions the pipeline can end with, by Python class.\<close>

datatype error = IndexError | ValueError | RuntimeError | TypeError

subsection \<open>The implicit function\<close>

definition fischer_koch_s :: "real \<Rightarrow> real \<Rightarrow> real \<Rightarrow> real" where
  "fischer_koch_s x y z =
     cos (2 * x) * sin y * cos z
     + cos (2 * y) * sin z * cos x
     + cos (2 * z) * sin x * cos y"

subsection \<open>Sampling\<close>

text \<open>
  \<^verbatim>\<open>np.linspace(start, stop, num)\<close> with the default \<^verbatim>\<open>endpoint=True\<close>: a negative
  \<^verbatim>\<open>num\<close> raises ValueError; otherwise sample \<open>i\<close> is \<open>start + i * step\<close> with
  \<open>step = (stop - start) / (num - 1)\<close>, and for \<open>num > 1\<close> the last sample is set to
  \<open>stop\<close>. With \<open>num = 1\<close> there is no step and the only sample is \<open>start\<close>.
\<close>

definition linspace :: "real \<Rightarrow> real \<Rightarrow> int \<Rightarrow> error + real list" where
  "linspace start stop num =
     (if num < 0 then Inl ValueError
      else let n = nat num;
               delta = stop - start;
               step = (if 1 < n then delta / real (n - 1) else delta)
           in Inr (map (\<lambda>i. if 1 < n \<and> i = n - 1 then stop else start + real i * step)
                       [0..<n]))"

text \<open>Lines 64 to 66: the three coordinate axes, each from the same bounds.\<close>

definition grid_axes ::
  "int \<Rightarrow> real \<times> real \<Rightarrow> error + (real list \<times> real list \<times> real list)" where
  "grid_axes resolution bounds =
     (case linspace (fst bounds) (snd bounds) resolution of
        Inl e \<Rightarrow> Inl e
      | Inr x \<Rightarrow>
          (case linspace (fst bounds) (snd bounds) resolution of
             Inl e \<Rightarrow> Inl e
           | Inr y \<Rightarrow>
               (case linspace (fst bounds) (snd bounds) resolution of
                  Inl e \<Rightarrow> Inl e
                | Inr z \<Rightarrow> Inr (x, y, z))))"

text \<open>
  Lines 69 to 73: \<^verbatim>\<open>np.meshgrid(x, y, z, indexing="ij")\<close> and the elementwise
  evaluation: entry \<open>(i, j, k)\<close> of the volume is the function at \<open>(x[i], y[j], z[k])\<close>.
\<close>

definition sample_values :: "real list \<Rightarrow> real list \<Rightarrow> real list \<Rightarrow> volume" where
  "sample_values x y z =
     map (\<lambda>xi. map (\<lambda>yj. map (\<lambda>zk. fischer_koch_s xi yj zk) z) y) x"

text \<open>
  Line 81: the spacing handed to the extractor, \<^verbatim>\<open>(x[1] - x[0], y[1] - y[0], z[1] - z[0])\<close>.
  Index 1 of an axis with fewer than two samples raises IndexError.
\<close>

definition axis_spacing :: "real list \<Rightarrow> error + real" where
  "axis_spacing x = (if length x < 2 then Inl IndexError else Inr (x ! 1 - x ! 0))"

definition spacing_of ::
  "real list \<Rightarrow> real list \<Rightarrow> real list \<Rightarrow> error + (real \<times> real \<times> real)" where
  "spacing_of x y z =
     (case axis_spacing x of
        Inl e \<Rightarrow> Inl e
      | Inr dx \<Rightarrow>
          (case axis_spacing y of
             Inl e \<Rightarrow> Inl e
           | Inr dy \<Rightarrow>
               (case axis_spacing z of
                  Inl e \<Rightarrow> Inl e
                | Inr dz \<Rightarrow> Inr (dx, dy, dz))))"

definition entries :: "volume \<Rightarrow> real list" where
  "entries v = concat (concat v)"

subsection \<open>Smoothing\<close>

text \<open>
  Line 76 calls \<^verbatim>\<open>scipy.ndimage.gaussian_filter(values, sigma=0.5)\<close> with the library's
  defaults \<^verbatim>\<open>mode='reflect'\<close> and \<^verbatim>\<open>truncate=4.0\<close>. The library filters one axis after
  the other with a normalised Gaussian kernel of radius \<^verbatim>\<open>int(truncate * sigma + 0.5)\<close>;
  an axis whose sigma is not above \<^verbatim>\<open>1e-15\<close> is skipped. Past an edge the input is
  reflected about the edge of the last sample (\<^verbatim>\<open>d c b a | a b c d | d c b a\<close>).
\<close>

definition shape :: "volume \<Rightarrow> nat \<times> nat \<times> nat" where
  "shape v =
     (length v,
      (case v of [] \<Rightarrow> 0 | p # _ \<Rightarrow> length p),
      (case v of [] \<Rightarrow> 0 | p # _ \<Rightarrow> (case p of [] \<Rightarrow> 0 | r # _ \<Rightarrow> length r)))"

definition reflect_index :: "nat \<Rightarrow> int \<Rightarrow> nat" where
  "reflect_index n j =
     (let m = nat (j mod (2 * int n)) in if m < n then m else 2 * n - 1 - m)"

definition gaussian_kernel1d :: "real \<Rightarrow> nat \<Rightarrow> real list" where
  "gaussian_kernel1d sigma radius =
     (let phi_x = map (\<lambda>t. exp (- (1 / 2) / (sigma * sigma) * (real t - real radius)\<^sup>2))
                      [0..<2 * radius + 1]
      in map (\<lambda>p. p / sum_list phi_x) phi_x)"

definition correlate_at :: "real list \<Rightarrow> nat \<Rightarrow> (nat \<Rightarrow> real) \<Rightarrow> nat \<Rightarrow> nat \<Rightarrow> real" where
  "correlate_at weights radius line n i =
     (\<Sum>t\<leftarrow>[0..<length weights].
        weights ! t * line (reflect_index n (int i + int t - int radius)))"

definition gaussian_filter1d :: "volume \<Rightarrow> real \<Rightarrow> nat \<Rightarrow> volume" where
  "gaussian_filter1d v sigma axis =
     (let lw = nat \<lfloor>4 * sigma + 1 / 2\<rfloor>;
          weights = rev (gaussian_kernel1d sigma lw);
          n0 = fst (shape v); n1 = fst (snd (shape v)); n2 = snd (snd (shape v))
      in map (\<lambda>i. map (\<lambda>j. map (\<lambda>k.
               if axis = 0 then correlate_at weights lw (\<lambda>t. v ! t ! j ! k) n0 i
               else if axis = 1 then correlate_at weights lw (\<lambda>t. v ! i ! t ! k) n1 j
               else correlate_at weights lw (\<lambda>t. v ! i ! j ! t) n2 k)
             [0..<n2]) [0..<n1]) [0..<n0])"

definition gaussian_filter :: "volume \<Rightarrow> real \<Rightarrow> volume" where
  "gaussian_filter v sigma =
     (if 1 / 10 ^ 15 < sigma
      then gaussian_filter1d (gaussian_filter1d (gaussian_filter1d v sigma 0) sigma 1) sigma 2
      else v)"

subsection \<open>Extraction\<close>

text \<open>
  Lines 80 to 82 call \<^verbatim>\<open>skimage.measure.marching_cubes(values, level, spacing)\<close>. Two
  parts of the library are parameters: \<open>float32\<close>, the conversion of a sample to single
  precision, and \<open>mc_kernel\<close>, the compiled triangulation with its lookup tables, which
  returns vertices in index coordinates with the axes in reverse order, and faces.
  What the library's Python entry point does around them is written out, in its order:
  a volume smaller than 2 x 2 x 2 raises ValueError; the volume is converted to single
  precision; a level outside the range of the converted values raises ValueError; the
  kernel runs on the converted volume; a result without vertices raises RuntimeError;
  the columns of the vertices are reversed, and so are the indices of every face (the
  default \<^verbatim>\<open>gradient_direction='descent'\<close>); the vertices are multiplied by the spacing,
  axis by axis.
\<close>

type_synonym kernel = "volume \<Rightarrow> real \<Rightarrow> mesh"

definition cast_volume :: "(real \<Rightarrow> real) \<Rightarrow> volume \<Rightarrow> volume" where
  "cast_volume float32 vol = map (map (map float32)) vol"

definition flip_vertex :: "vertex \<Rightarrow> vertex" where
  "flip_vertex p = (case p of (a, b, c) \<Rightarrow> (c, b, a))"

definition flip_face :: "face \<Rightarrow> face" where
  "flip_face f = (case f of (a, b, c) \<Rightarrow> (c, b, a))"

definition scale_vertex :: "real \<times> real \<times> real \<Rightarrow> vertex \<Rightarrow> vertex" where
  "scale_vertex spacing p =
     (case spacing of (dx, dy, dz) \<Rightarrow> (case p of (a, b, c) \<Rightarrow> (a * dx, b * dy, c * dz)))"

definition marching_cubes ::
  "(real \<Rightarrow> real) \<Rightarrow> kernel \<Rightarrow> volume \<Rightarrow> real \<Rightarrow> real \<times> real \<times> real \<Rightarrow> error + mesh" where
  "marching_cubes float32 mc_kernel vol level spacing =
     (if fst (shape vol) < 2 \<or> fst (snd (shape vol)) < 2 \<or> snd (snd (shape vol)) < 2
      then Inl ValueError
      else let volume = cast_volume float32 vol
           in if level < Min (set (entries volume)) \<or> Max (set (entries volume)) < level
              then Inl ValueError
              else (case mc_kernel volume level of
                      (vertices, faces) \<Rightarrow>
                        if vertices = [] then Inl RuntimeError
                        else Inr (map (\<lambda>p. scale_vertex spacing (flip_vertex p)) vertices,
                                  map flip_face faces)))"

subsection \<open>The pipeline\<close>

text \<open>Lines 85 to 87: \<^verbatim>\<open>bounds[0]\<close> is added to each of the three vertex columns.\<close>

definition adjust_vertices :: "real \<Rightarrow> vertex list \<Rightarrow> vertex list" where
  "adjust_vertices lo verts = map (\<lambda>(a, b, c). (a + lo, b + lo, c + lo)) verts"

definition generate_surface ::
  "(real \<Rightarrow> real) \<Rightarrow> kernel \<Rightarrow> int \<Rightarrow> real \<times> real \<Rightarrow> real \<Rightarrow> error + mesh" where
  "generate_surface float32 mc_kernel resolution bounds iso_value =
     (case grid_axes resolution bounds of
        Inl e \<Rightarrow> Inl e
      | Inr (x, y, z) \<Rightarrow>
          (let values = sample_values x y z;
               values = gaussian_filter values (1 / 2)
           in case spacing_of x y z of
                Inl e \<Rightarrow> Inl e
              | Inr spacing \<Rightarrow>
                  (case marching_cubes float32 mc_kernel values iso_value spacing of
                     Inl e \<Rightarrow> Inl e
                   | Inr (verts, faces) \<Rightarrow> Inr (adjust_vertices (fst bounds) verts, faces))))"

text \<open>
  The signature is \<^verbatim>\<open>generate_surface(resolution=50, bounds=(-np.pi, np.pi), iso_value=0.0)\<close>.
  A call by keyword binds the three parameters, each with its default when it is not
  given; a keyword that is not a parameter raises TypeError before the body runs.
\<close>

datatype keyword =
  Kw_resolution int
  | Kw_bounds "real \<times> real"
  | Kw_iso_value real
  | Kw_other string real

fun bind_keywords ::
  "keyword list \<Rightarrow> int \<times> (real \<times> real) \<times> real \<Rightarrow> error + (int \<times> (real \<times> real) \<times> real)" where
  "bind_keywords [] params = Inr params"
| "bind_keywords (Kw_resolution r # ks) (_, b, i) = bind_keywords ks (r, b, i)"
| "bind_keywords (Kw_bounds b # ks) (r, _, i) = bind_keywords ks (r, b, i)"
| "bind_keywords (Kw_iso_value i # ks) (r, b, _) = bind_keywords ks (r, b, i)"
| "bind_keywords (Kw_other name v # ks) params = Inl TypeError"

definition call_generate_surface ::
  "(real \<Rightarrow> real) \<Rightarrow> kernel \<Rightarrow> keyword list \<Rightarrow> error + mesh" where
  "call_generate_surface float32 mc_kernel kwargs =
     (case bind_keywords kwargs (50, (- pi, pi), 0) of
        Inl e \<Rightarrow> Inl e
      | Inr (resolution, bounds, iso_value) \<Rightarrow>
          generate_surface float32 mc_kernel resolution bounds iso_value)"

subsection \<open>The interactive shell\<close>

text \<open>
  Lines 166 to 172 of \<^verbatim>\<open>main\<close>: the line read from the user is stripped; an empty line
  gives 50, anything else goes through \<^verbatim>\<open>int\<close>, and the result is clamped to 30..100.
  A ValueError from \<^verbatim>\<open>int\<close> gives 50. \<^verbatim>\<open>int\<close> accepts an optional sign and decimal
  digits, with single underscores between digits. Characters are those below 256; the
  interpreter's limit on the length of a numeral it converts is left out (a longer
  numeral raises ValueError there, which gives 50).
\<close>

definition is_space :: "char \<Rightarrow> bool" where
  "is_space c = ((of_char c :: nat) \<in> {9, 10, 11, 12, 13, 28, 29, 30, 31, 32, 133, 160})"

definition strip :: "string \<Rightarrow> string" where
  "strip s = rev (dropWhile is_space (rev (dropWhile is_space s)))"

definition is_digit :: "char \<Rightarrow> bool" where
  "is_digit c = (48 \<le> (of_char c :: nat) \<and> (of_char c :: nat) \<le> 57)"

definition digit_value :: "char \<Rightarrow> nat" where
  "digit_value c = of_char c - 48"

fun digits_from :: "nat \<Rightarrow> string \<Rightarrow> nat option" where
  "digits_from acc [] = Some acc"
| "digits_from acc [c] = (if is_digit c then Some (10 * acc + digit_value c) else None)"
| "digits_from acc (c # d # cs) =
     (if is_digit c then digits_from (10 * acc + digit_value c) (d # cs)
      else if c = CHR ''_'' \<and> is_digit d then digits_from (10 * acc + digit_value d) cs
      else None)"

definition unsigned :: "string \<Rightarrow> nat option" where
  "unsigned s =
     (case s of
        [] \<Rightarrow> None
      | c # cs \<Rightarrow> if is_digit c then digits_from (digit_value c) cs else None)"

definition py_int :: "string \<Rightarrow> int option" where
  "py_int s =
     (case strip s of
        [] \<Rightarrow> None
      | c # cs \<Rightarrow>
          if c = CHR ''-'' then map_option (\<lambda>n. - int n) (unsigned cs)
          else if c = CHR ''+'' then map_option int (unsigned cs)
          else map_option int (unsigned (c # cs)))"

definition main_resolution :: "string \<Rightarrow> int" where
  "main_resolution line =
     (let resolution = strip line
      in case (if resolution \<noteq> [] then py_int resolution else Some 50) of
           None \<Rightarrow> 50
         | Some r \<Rightarrow> max 30 (min 100 r))"

text \<open>Lines 179 to 181: the call \<^verbatim>\<open>main\<close> makes with that resolution.\<close>

definition main_surface :: "(real \<Rightarrow> real) \<Rightarrow> kernel \<Rightarrow> string \<Rightarrow> error + mesh" where
  "main_surface float32 mc_kernel line =
     call_generate_surface float32 mc_kernel
       [Kw_resolution (main_resolution line), Kw_bounds (- pi, pi), Kw_iso_value 0]"

subsection \<open>Edge interpolation\<close>

text \<open>
  Modelled from the spec: the placement of a vertex on a cut cube edge (section 4.4,
  steps 2 and 4). The program takes the whole extraction from scikit-image; no source
  file of the repository holds it. A corner is inside when its value is below the
  isovalue, an edge is cut when its two corners are classified differently.
\<close>

definition inside :: "real \<Rightarrow> real \<Rightarrow> bool" where
  "inside isoValue v = (v < isoValue)"

text \<open>Modelled from the spec: an edge is cut iff its endpoints have opposite classification.\<close>

definition edge_cut :: "real \<Rightarrow> real \<Rightarrow> real \<Rightarrow> bool" where
  "edge_cut isoValue v0 v1 = (inside isoValue v0 \<noteq> inside isoValue v1)"

text \<open>
  Modelled from the spec: \<open>t = (isoValue - v0) / (v1 - v0)\<close>, clamped to \<open>[0, 1]\<close>.
\<close>

definition interpolation_parameter :: "real \<Rightarrow> real \<Rightarrow> real \<Rightarrow> real" where
  "interpolation_parameter isoValue v0 v1 = max 0 (min 1 ((isoValue - v0) / (v1 - v0)))"

text \<open>
  Modelled from the spec: the vertex is \<open>corner0 + t * (corner1 - corner0)\<close> in index
  space, scaled by the axis spacing.
\<close>

definition edge_vertex ::
  "real \<times> real \<times> real \<Rightarrow> vertex \<Rightarrow> vertex \<Rightarrow> real \<Rightarrow> vertex" where
  "edge_vertex spacing corner0 corner1 t =
     (case corner0 of (a0, b0, c0) \<Rightarrow>
        (case corner1 of (a1, b1, c1) \<Rightarrow>
           scale_vertex spacing
             (a0 + t * (a1 - a0), b0 + t * (b1 - b0), c0 + t * (c1 - c0))))"

text \<open>Modelled from the spec: the field value linear interpolation gives at the vertex.\<close>

definition interpolated_value :: "real \<Rightarrow> real \<Rightarrow> real \<Rightarrow> real" where
  "interpolated_value v0 v1 t = v0 + t * (v1 - v0)"

subsection \<open>Shapes and ranges of volumes\<close>

text \<open>
  Two predicates for the proofs: a volume is a cuboid of \<open>n0 * n1 * n2\<close> samples, and all
  values of a volume lie between two bounds.
\<close>

definition cuboid :: "volume \<Rightarrow> nat \<Rightarrow> nat \<Rightarrow> nat \<Rightarrow> bool" where
  "cuboid v n0 n1 n2 =
     (length v = n0 \<and> (\<forall>i < n0. length (v ! i) = n1 \<and> (\<forall>j < n1. length (v ! i ! j) = n2)))"

definition values_within :: "real \<Rightarrow> real \<Rightarrow> volume \<Rightarrow> bool" where
  "values_within a b v = (\<forall>x \<in> set (entries v). a \<le> x \<and> x \<le> b)"

section \<open>Sampling is exact on the lattice\<close>

lemma linspace_ok:
  assumes "0 \<le> num"
  shows "\<exists>x. linspace start stop num = Inr x \<and> length x = nat num"
  using assms by (simp add: linspace_def Let_def)

lemma linspace_nth:
  assumes "2 \<le> num" and "linspace lo hi num = Inr x" and "i < nat num"
  shows "x ! i = lo + real i * ((hi - lo) / real (nat num - 1))"
proof -
  have n: "1 < nat num" using assms(1) by simp
  have x: "x = map (\<lambda>i. if i = nat num - 1 then hi
                         else lo + real i * ((hi - lo) / real (nat num - 1))) [0..<nat num]"
    using assms(1,2) n by (auto simp: linspace_def Let_def)
  show ?thesis
  proof (cases "i = nat num - 1")
    case True
    have "real (nat num - 1) \<noteq> 0" using n by simp
    then have "lo + real (nat num - 1) * ((hi - lo) / real (nat num - 1)) = hi"
      by simp
    with True x assms(3) show ?thesis by simp
  next
    case False
    with x assms(3) show ?thesis by simp
  qed
qed

lemma length_concat_rows:
  "length (concat (map (\<lambda>yj. map (g yj) z) y)) = length y * length z"
  by (induction y) simp_all

lemma entries_sample_values:
  "length (entries (sample_values x y z)) = length x * (length y * length z)"
  unfolding entries_def sample_values_def
  by (induction x) (simp_all add: length_concat_rows)

lemma sample_values_nth:
  assumes "i < length x" and "j < length y" and "k < length z"
  shows "sample_values x y z ! i ! j ! k = fischer_koch_s (x ! i) (y ! j) (z ! k)"
  using assms by (simp add: sample_values_def)

text \<open>
  C1. For a resolution of at least 2 and bounds \<open>lo < hi\<close>, the axes are \<open>resolution\<close>
  evenly spaced coordinates from \<open>lo\<close> to \<open>hi\<close> inclusive, the sampled volume has
  \<open>resolution ^ 3\<close> entries, entry \<open>(i, j, k)\<close> is the implicit function at
  \<open>(x\<^sub>i, y\<^sub>j, z\<^sub>k)\<close>, and the spacing handed to the extractor is
  \<open>(hi - lo) / (resolution - 1)\<close> on each axis.
\<close>

theorem sampling_exact:
  assumes "2 \<le> resolution" and "lo < hi"
  shows "\<exists>x y z. grid_axes resolution (lo, hi) = Inr (x, y, z)
           \<and> length x = nat resolution \<and> y = x \<and> z = x
           \<and> x ! 0 = lo \<and> x ! (nat resolution - 1) = hi
           \<and> (\<forall>i < nat resolution.
                 x ! i = lo + real i * ((hi - lo) / real_of_int (resolution - 1)))
           \<and> length (entries (sample_values x y z)) = nat resolution ^ 3
           \<and> (\<forall>i < nat resolution. \<forall>j < nat resolution. \<forall>k < nat resolution.
                 sample_values x y z ! i ! j ! k
                   = cos (2 * x ! i) * sin (y ! j) * cos (z ! k)
                     + cos (2 * y ! j) * sin (z ! k) * cos (x ! i)
                     + cos (2 * z ! k) * sin (x ! i) * cos (y ! j))
           \<and> spacing_of x y z
               = Inr ((hi - lo) / real_of_int (resolution - 1),
                      (hi - lo) / real_of_int (resolution - 1),
                      (hi - lo) / real_of_int (resolution - 1))"
proof -
  let ?n = "nat resolution"
  let ?h = "(hi - lo) / real_of_int (resolution - 1)"
  from assms(1) have n2: "2 \<le> ?n" by simp
  from assms(1) have h: "real (?n - 1) = real_of_int (resolution - 1)"
    by (simp add: of_nat_diff)
  from assms(1) obtain x where x: "linspace lo hi resolution = Inr x" and len: "length x = ?n"
    using linspace_ok[of resolution lo hi] by auto
  have nth: "x ! i = lo + real i * ?h" if "i < ?n" for i
    using linspace_nth[OF assms(1) x that] h by simp
  have x0: "x ! 0 = lo" using nth[of 0] n2 by simp
  have x1: "x ! 1 = lo + ?h" using nth[of 1] n2 by simp
  have "real_of_int (resolution - 1) \<noteq> 0" using assms(1) by simp
  then have "lo + real_of_int (resolution - 1) * ?h = hi" by simp
  then have xl: "x ! (?n - 1) = hi" using nth[of "?n - 1"] n2 h by simp
  have ax: "axis_spacing x = Inr ?h"
    using len n2 x0 x1 by (simp add: axis_spacing_def)
  have g: "grid_axes resolution (lo, hi) = Inr (x, x, x)"
    using x by (simp add: grid_axes_def)
  have cnt: "length (entries (sample_values x x x)) = ?n ^ 3"
    by (simp add: entries_sample_values len power3_eq_cube)
  have ent: "\<forall>i < ?n. \<forall>j < ?n. \<forall>k < ?n.
      sample_values x x x ! i ! j ! k
        = cos (2 * x ! i) * sin (x ! j) * cos (x ! k)
          + cos (2 * x ! j) * sin (x ! k) * cos (x ! i)
          + cos (2 * x ! k) * sin (x ! i) * cos (x ! j)"
    using len by (simp add: sample_values_nth fischer_koch_s_def)
  have sp: "spacing_of x x x = Inr (?h, ?h, ?h)"
    using ax by (simp add: spacing_of_def)
  show ?thesis
    using g len x0 xl nth cnt ent sp by blast
qed

text \<open>
  Resolution 2 on \<open>(0, pi / 2)\<close>: the eight samples, read off the formula, are 0, 1 and
  -1, and the spacing is \<open>pi / 2\<close>.
\<close>

theorem sampling_exact_witness:
  "(2::int) \<le> 2 \<and> (0::real) < pi / 2
   \<and> (\<exists>x y z. grid_axes 2 (0, pi / 2) = Inr (x, y, z)
          \<and> x = [0, pi / 2] \<and> y = x \<and> z = x
          \<and> length (entries (sample_values x y z)) = 8
          \<and> sample_values x y z = [[[0, 1], [1, - 1]], [[1, - 1], [- 1, 0]]]
          \<and> sample_values x y z ! 1 ! 0 ! 0
              = cos (2 * (pi / 2)) * sin 0 * cos 0
                + cos (2 * 0) * sin 0 * cos (pi / 2)
                + cos (2 * 0) * sin (pi / 2) * cos 0
          \<and> spacing_of x y z = Inr (pi / 2, pi / 2, pi / 2))"
proof -
  have g: "grid_axes 2 (0, pi / 2) = Inr ([0, pi / 2], [0, pi / 2], [0, pi / 2])"
    by (simp add: grid_axes_def linspace_def Let_def upt_rec)
  have p: "(0::real) < pi / 2" by simp
  from sampling_exact[of 2 0 "pi / 2", OF _ p]
  obtain x y z where h: "grid_axes 2 (0, pi / 2) = Inr (x, y, z)" "y = x" "z = x"
      "length (entries (sample_values x y z)) = nat 2 ^ 3"
      "\<forall>i < nat 2. \<forall>j < nat 2. \<forall>k < nat 2.
          sample_values x y z ! i ! j ! k
            = cos (2 * x ! i) * sin (y ! j) * cos (z ! k)
              + cos (2 * y ! j) * sin (z ! k) * cos (x ! i)
              + cos (2 * z ! k) * sin (x ! i) * cos (y ! j)"
      "spacing_of x y z = Inr ((pi / 2 - 0) / real_of_int (2 - 1),
         (pi / 2 - 0) / real_of_int (2 - 1), (pi / 2 - 0) / real_of_int (2 - 1))"
    by auto
  from h(1) g have x: "x = [0, pi / 2]" by simp
  from h(5) have e: "sample_values x y z ! 1 ! 0 ! 0
      = cos (2 * x ! 1) * sin (y ! 0) * cos (z ! 0)
        + cos (2 * y ! 0) * sin (z ! 0) * cos (x ! 1)
        + cos (2 * z ! 0) * sin (x ! 1) * cos (y ! 0)"
    by simp
  have v: "sample_values [0, pi / 2] [0, pi / 2] [0, pi / 2]
      = [[[0, 1], [1, - 1]], [[1, - 1], [- 1, 0]]]"
    by (simp add: sample_values_def fischer_koch_s_def)
  from x h e v p show ?thesis by simp
qed

section \<open>Smoothing keeps the shape and the range\<close>

lemma reflect_index_less:
  assumes "0 < n"
  shows "reflect_index n j < n"
proof -
  have "0 \<le> j mod (2 * int n)" and "j mod (2 * int n) < 2 * int n"
    using assms by simp_all
  then show ?thesis
    unfolding reflect_index_def Let_def by (auto simp: nat_less_iff)
qed

lemma sum_list_divide_const:
  fixes xs :: "real list"
  shows "sum_list (map (\<lambda>p. p / c) xs) = sum_list xs / c"
  by (induction xs) (simp_all add: add_divide_distrib)

lemma gaussian_kernel1d_props:
  "(\<forall>w \<in> set (gaussian_kernel1d sigma r). 0 \<le> w) \<and> sum_list (gaussian_kernel1d sigma r) = 1"
proof -
  define phi where
    "phi = map (\<lambda>t. exp (- (1 / 2) / (sigma * sigma) * (real t - real r)\<^sup>2)) [0..<2 * r + 1]"
  have pos: "\<forall>p \<in> set phi. 0 < p" by (auto simp: phi_def)
  have ne: "phi \<noteq> []" by (simp add: phi_def)
  then obtain p ps where pps: "phi = p # ps" by (cases phi) auto
  have "0 \<le> sum_list ps" using pos pps by (intro sum_list_nonneg) (auto intro: less_imp_le)
  moreover have "0 < p" using pos pps by simp
  ultimately have S: "0 < sum_list phi" using pps by simp
  have k: "gaussian_kernel1d sigma r = map (\<lambda>p. p / sum_list phi) phi"
    by (simp add: gaussian_kernel1d_def phi_def Let_def)
  have "\<forall>w \<in> set (gaussian_kernel1d sigma r). 0 \<le> w"
    using pos S by (auto simp: k intro!: divide_nonneg_pos less_imp_le)
  moreover have "sum_list (gaussian_kernel1d sigma r) = 1"
    using S by (simp add: k sum_list_divide_const)
  ultimately show ?thesis by blast
qed

lemma correlate_at_bounds:
  assumes w: "\<forall>x \<in> set weights. 0 \<le> x" and s: "sum_list weights = 1"
    and n: "0 < n" and l: "\<forall>m < n. a \<le> line m \<and> line m \<le> b"
  shows "a \<le> correlate_at weights radius line n i \<and> correlate_at weights radius line n i \<le> b"
proof -
  let ?idx = "\<lambda>t. reflect_index n (int i + int t - int radius)"
  have nth: "map (\<lambda>t. weights ! t) [0..<length weights] = weights" by (rule map_nth)
  have c: "sum_list (map (\<lambda>t. weights ! t * c) [0..<length weights]) = c" for c
  proof -
    have "map (\<lambda>t. weights ! t * c) [0..<length weights]
          = map (\<lambda>x. x * c) (map (\<lambda>t. weights ! t) [0..<length weights])"
      by simp
    also have "\<dots> = map (\<lambda>x. x * c) weights" by (simp only: nth)
    finally show ?thesis using s by (simp add: sum_list_mult_const)
  qed
  have lo: "weights ! t * a \<le> weights ! t * line (?idx t)"
    and hi: "weights ! t * line (?idx t) \<le> weights ! t * b" if "t < length weights" for t
  proof -
    have "0 \<le> weights ! t" using w that by simp
    moreover have "a \<le> line (?idx t)" "line (?idx t) \<le> b"
      using l reflect_index_less[OF n] by simp_all
    ultimately show "weights ! t * a \<le> weights ! t * line (?idx t)"
      and "weights ! t * line (?idx t) \<le> weights ! t * b"
      by (simp_all add: mult_left_mono)
  qed
  have "sum_list (map (\<lambda>t. weights ! t * a) [0..<length weights])
        \<le> correlate_at weights radius line n i"
    unfolding correlate_at_def by (rule sum_list_mono) (simp add: lo)
  moreover have "correlate_at weights radius line n i
        \<le> sum_list (map (\<lambda>t. weights ! t * b) [0..<length weights])"
    unfolding correlate_at_def by (rule sum_list_mono) (simp add: hi)
  ultimately show ?thesis by (simp add: c)
qed

lemma entries_iff:
  assumes "cuboid v n0 n1 n2"
  shows "x \<in> set (entries v) \<longleftrightarrow> (\<exists>i < n0. \<exists>j < n1. \<exists>k < n2. x = v ! i ! j ! k)"
proof
  assume "x \<in> set (entries v)"
  then obtain p r where p: "p \<in> set v" and r: "r \<in> set p" and x: "x \<in> set r"
    by (auto simp: entries_def)
  from p obtain i where i: "i < length v" "p = v ! i" by (auto simp: in_set_conv_nth)
  from r obtain j where j: "j < length p" "r = p ! j" by (auto simp: in_set_conv_nth)
  from x obtain k where k: "k < length r" "x = r ! k" by (auto simp: in_set_conv_nth)
  from assms i j k show "\<exists>i < n0. \<exists>j < n1. \<exists>k < n2. x = v ! i ! j ! k"
    unfolding cuboid_def by auto
next
  assume "\<exists>i < n0. \<exists>j < n1. \<exists>k < n2. x = v ! i ! j ! k"
  then obtain i j k where h: "i < n0" "j < n1" "k < n2" "x = v ! i ! j ! k" by blast
  with assms have "v ! i \<in> set v" "v ! i ! j \<in> set (v ! i)" "x \<in> set (v ! i ! j)"
    unfolding cuboid_def by auto
  then show "x \<in> set (entries v)" by (auto simp: entries_def)
qed

lemma cuboid_shape:
  assumes "cuboid v n0 n1 n2" and "0 < n0" and "0 < n1"
  shows "shape v = (n0, n1, n2)"
proof -
  from assms obtain p ps where v: "v = p # ps" unfolding cuboid_def by (cases v) auto
  with assms have lp: "length p = n1" and lr: "\<forall>j < n1. length (p ! j) = n2"
    unfolding cuboid_def by force+
  from lp assms(3) obtain r rs where p: "p = r # rs" by (cases p) auto
  with lr assms(3) have "length r = n2" by force
  with v p lp assms(1) show ?thesis by (simp add: shape_def cuboid_def)
qed

lemma gaussian_filter1d_nth:
  assumes "cuboid v n0 n1 n2" and "0 < n0" and "0 < n1" and "i < n0" and "j < n1" and "k < n2"
  shows "gaussian_filter1d v sigma axis ! i ! j ! k =
     (let lw = nat \<lfloor>4 * sigma + 1 / 2\<rfloor>; weights = rev (gaussian_kernel1d sigma lw)
      in if axis = 0 then correlate_at weights lw (\<lambda>t. v ! t ! j ! k) n0 i
         else if axis = 1 then correlate_at weights lw (\<lambda>t. v ! i ! t ! k) n1 j
         else correlate_at weights lw (\<lambda>t. v ! i ! j ! t) n2 k)"
  using assms(4-6) by (simp add: gaussian_filter1d_def cuboid_shape[OF assms(1-3)] Let_def)

lemma gaussian_filter1d_cuboid:
  assumes "cuboid v n0 n1 n2" and "0 < n0" and "0 < n1"
  shows "cuboid (gaussian_filter1d v sigma axis) n0 n1 n2"
  by (simp add: gaussian_filter1d_def cuboid_shape[OF assms] Let_def cuboid_def)

lemma gaussian_filter1d_within:
  assumes c: "cuboid v n0 n1 n2" and pos: "0 < n0" "0 < n1" "0 < n2"
    and b: "values_within a b v"
  shows "values_within a b (gaussian_filter1d v sigma axis)"
proof -
  let ?w = "rev (gaussian_kernel1d sigma (nat \<lfloor>4 * sigma + 1 / 2\<rfloor>))"
  have w: "\<forall>x \<in> set ?w. 0 \<le> x" "sum_list ?w = 1"
    using gaussian_kernel1d_props[of sigma "nat \<lfloor>4 * sigma + 1 / 2\<rfloor>"]
    by (simp_all add: sum_list_rev)
  have vb: "a \<le> v ! i ! j ! k \<and> v ! i ! j ! k \<le> b" if "i < n0" "j < n1" "k < n2" for i j k
    using b that entries_iff[OF c] unfolding values_within_def by blast
  have "a \<le> gaussian_filter1d v sigma axis ! i ! j ! k
        \<and> gaussian_filter1d v sigma axis ! i ! j ! k \<le> b"
    if h: "i < n0" "j < n1" "k < n2" for i j k
  proof -
    have 0: "\<forall>m < n0. a \<le> v ! m ! j ! k \<and> v ! m ! j ! k \<le> b" using vb h by simp
    have 1: "\<forall>m < n1. a \<le> v ! i ! m ! k \<and> v ! i ! m ! k \<le> b" using vb h by simp
    have 2: "\<forall>m < n2. a \<le> v ! i ! j ! m \<and> v ! i ! j ! m \<le> b" using vb h by simp
    show ?thesis
      unfolding gaussian_filter1d_nth[OF c pos(1,2) h] Let_def
      using correlate_at_bounds[OF w pos(1) 0] correlate_at_bounds[OF w pos(2) 1]
        correlate_at_bounds[OF w pos(3) 2]
      by simp
  qed
  then show ?thesis
    by (auto simp: values_within_def
          entries_iff[OF gaussian_filter1d_cuboid[OF c pos(1,2), of sigma axis]])
qed

lemma gaussian_filter_cuboid:
  assumes "cuboid v n0 n1 n2" and "0 < n0" and "0 < n1"
  shows "cuboid (gaussian_filter v sigma) n0 n1 n2"
  using assms by (simp add: gaussian_filter_def gaussian_filter1d_cuboid)

lemma gaussian_filter_within:
  assumes "cuboid v n0 n1 n2" and "0 < n0" "0 < n1" "0 < n2" and "values_within a b v"
  shows "values_within a b (gaussian_filter v sigma)"
proof (cases "1 / 10 ^ 15 < sigma")
  case True
  note c0 = gaussian_filter1d_cuboid[OF assms(1-3), of sigma 0]
  note b0 = gaussian_filter1d_within[OF assms(1-5), of sigma 0]
  note c1 = gaussian_filter1d_cuboid[OF c0 assms(2,3), of sigma 1]
  note b1 = gaussian_filter1d_within[OF c0 assms(2-4) b0, of sigma 1]
  note b2 = gaussian_filter1d_within[OF c1 assms(2-4) b1, of sigma 2]
  from True b2 show ?thesis by (simp add: gaussian_filter_def)
next
  case False
  with assms(5) show ?thesis by (simp add: gaussian_filter_def)
qed

lemma sample_values_cuboid: "cuboid (sample_values x y z) (length x) (length y) (length z)"
  by (simp add: cuboid_def sample_values_def)

lemma abs_trig_product: "\<bar>cos a * sin b * cos c\<bar> \<le> (1::real)"
proof -
  have "\<bar>cos a\<bar> * \<bar>sin b\<bar> \<le> 1" by (intro mult_le_one) simp_all
  then have "\<bar>cos a\<bar> * \<bar>sin b\<bar> * \<bar>cos c\<bar> \<le> 1" by (intro mult_le_one) simp_all
  then show ?thesis by (simp add: abs_mult)
qed

lemma fischer_koch_s_bounds: "- 3 \<le> fischer_koch_s x y z \<and> fischer_koch_s x y z \<le> 3"
  using abs_trig_product[of "2 * x" y z] abs_trig_product[of "2 * y" z x]
    abs_trig_product[of "2 * z" x y]
  unfolding fischer_koch_s_def by linarith

lemma sample_values_within: "values_within (- 3) 3 (sample_values x y z)"
  by (auto simp: values_within_def entries_iff[OF sample_values_cuboid] sample_values_nth
        fischer_koch_s_bounds)

section \<open>An isosurface that is not there\<close>

lemma grid_axes_ok:
  assumes "0 \<le> resolution"
  shows "\<exists>x. grid_axes resolution bounds = Inr (x, x, x) \<and> length x = nat resolution
           \<and> linspace (fst bounds) (snd bounds) resolution = Inr x"
  using linspace_ok[OF assms, of "fst bounds" "snd bounds"] by (auto simp: grid_axes_def)

lemma cuboid_entries_nonempty:
  assumes "cuboid v n0 n1 n2" and "0 < n0" and "0 < n1" and "0 < n2"
  shows "set (entries v) \<noteq> {}"
  using entries_iff[OF assms(1), of "v ! 0 ! 0 ! 0"] assms(2-4) by auto

lemma entries_cast_volume: "entries (cast_volume float32 v) = map float32 (entries v)"
  by (simp add: entries_def cast_volume_def map_concat)

lemma marching_cubes_level_outside:
  assumes "cuboid v n0 n1 n2" and "0 < n0" and "0 < n1" and "0 < n2"
    and "(\<forall>x \<in> set (entries v). float32 x < level) \<or> (\<forall>x \<in> set (entries v). level < float32 x)"
  shows "marching_cubes float32 mc_kernel v level spacing = Inl ValueError"
proof -
  let ?c = "set (entries (cast_volume float32 v))"
  have ne: "?c \<noteq> {}"
    using cuboid_entries_nonempty[OF assms(1-4)] by (simp add: entries_cast_volume)
  have "(\<forall>y \<in> ?c. y < level) \<or> (\<forall>y \<in> ?c. level < y)"
    using assms(5) by (auto simp: entries_cast_volume)
  then have "level < Min ?c \<or> Max ?c < level"
    using ne by (auto simp: Min_gr_iff Max_less_iff)
  then show ?thesis by (simp add: marching_cubes_def Let_def)
qed

lemma marching_cubes_vertices:
  assumes "marching_cubes float32 mc_kernel v level spacing = Inr (vs, fs)"
  shows "vs \<noteq> []"
  using assms by (auto simp: marching_cubes_def Let_def split: if_splits prod.splits)

lemma generate_surface_eq:
  assumes "grid_axes resolution bounds = Inr (x, y, z)" and "spacing_of x y z = Inr spacing"
  shows "generate_surface float32 mc_kernel resolution bounds iso_value =
     (case marching_cubes float32 mc_kernel (gaussian_filter (sample_values x y z) (1 / 2))
             iso_value spacing of
        Inl e \<Rightarrow> Inl e
      | Inr (verts, faces) \<Rightarrow> Inr (adjust_vertices (fst bounds) verts, faces))"
  using assms by (simp add: generate_surface_def)

lemma generate_surface_vertices:
  assumes "generate_surface float32 mc_kernel resolution bounds iso_value = Inr (verts, faces)"
  shows "verts \<noteq> []"
  using assms marching_cubes_vertices
  by (fastforce simp: generate_surface_def adjust_vertices_def Let_def
        split: sum.splits prod.splits)

lemma spacing_of_ok:
  assumes "2 \<le> length x"
  shows "spacing_of x x x = Inr (x ! 1 - x ! 0, x ! 1 - x ! 0, x ! 1 - x ! 0)"
  using assms by (simp add: spacing_of_def axis_spacing_def)

lemma smoothed_cuboid:
  assumes "0 < length x"
  shows "cuboid (gaussian_filter (sample_values x x x) sigma) (length x) (length x) (length x)"
  by (rule gaussian_filter_cuboid[OF sample_values_cuboid assms assms])

lemma smoothed_within:
  assumes "0 < length x"
  shows "values_within (- 3) 3 (gaussian_filter (sample_values x x x) sigma)"
  by (rule gaussian_filter_within[OF sample_values_cuboid assms assms assms sample_values_within])

lemma generate_surface_level_outside:
  assumes "2 \<le> resolution" and "mono float32" and "float32 3 = 3" and "float32 (- 3) = - 3"
    and "iso_value < - 3 \<or> 3 < iso_value"
  shows "generate_surface float32 mc_kernel resolution bounds iso_value = Inl ValueError"
proof -
  from assms(1) grid_axes_ok[of resolution bounds]
  obtain x where g: "grid_axes resolution bounds = Inr (x, x, x)"
    and len: "length x = nat resolution" by auto
  from assms(1) len have l2: "2 \<le> length x" and l0: "0 < length x" by simp_all
  let ?v = "gaussian_filter (sample_values x x x) (1 / 2)"
  have r: "- 3 \<le> float32 y \<and> float32 y \<le> 3" if "y \<in> set (entries ?v)" for y
  proof -
    from that smoothed_within[OF l0, of "1 / 2"] have "- 3 \<le> y" and "y \<le> 3"
      unfolding values_within_def by auto
    then have "float32 (- 3) \<le> float32 y" and "float32 y \<le> float32 3"
      using assms(2) by (auto dest: monoD)
    then show ?thesis using assms(3,4) by simp
  qed
  have "(\<forall>y \<in> set (entries ?v). float32 y < iso_value)
        \<or> (\<forall>y \<in> set (entries ?v). iso_value < float32 y)"
    using r assms(5) by fastforce
  then have "marching_cubes float32 mc_kernel ?v iso_value
               (x ! 1 - x ! 0, x ! 1 - x ! 0, x ! 1 - x ! 0) = Inl ValueError"
    by (rule marching_cubes_level_outside[OF smoothed_cuboid[OF l0] l0 l0 l0])
  then show ?thesis
    using generate_surface_eq[OF g spacing_of_ok[OF l2]] by simp
qed

text \<open>
  C2, as the code has it. A call never returns a mesh without vertices. The function
  stays within \<open>[-3, 3]\<close>; for a resolution of at least 2 and an \<open>iso_value\<close> outside
  that range the call ends with the ValueError of the extractor's level check, for every
  kernel and every conversion to single precision that is monotone and leaves 3 and -3
  as they are.
\<close>

theorem empty_isosurface_is_an_error:
  "(\<forall>verts faces.
      generate_surface float32 mc_kernel resolution bounds iso_value = Inr (verts, faces)
      \<longrightarrow> verts \<noteq> [])
   \<and> (\<forall>a b c. - 3 \<le> fischer_koch_s a b c \<and> fischer_koch_s a b c \<le> 3)
   \<and> (2 \<le> resolution \<longrightarrow> mono float32 \<longrightarrow> float32 3 = 3 \<longrightarrow> float32 (- 3) = - 3 \<longrightarrow>
        (iso_value < - 3 \<or> 3 < iso_value) \<longrightarrow>
        generate_surface float32 mc_kernel resolution bounds iso_value = Inl ValueError)"
  using generate_surface_vertices[of float32 mc_kernel resolution bounds iso_value]
    generate_surface_level_outside[of resolution float32 iso_value mc_kernel bounds]
    fischer_koch_s_bounds
  by blast

text \<open>
  C2 as stated fails: the field never attains the isovalue 5, and with resolution 2 on
  \<open>(-1, 1)\<close> no extraction kernel and no monotone conversion that leaves 3 and -3 as
  they are makes the call return a mesh, empty or not.
\<close>

theorem no_empty_mesh_counterexample:
  "\<not> (\<exists>float32 mc_kernel mesh.
         mono float32 \<and> float32 3 = 3 \<and> float32 (- 3) = - 3
         \<and> generate_surface float32 mc_kernel 2 (- 1, 1) 5 = Inr mesh)"
  by (auto simp: generate_surface_level_outside)

lemma marching_cubes_level_inside:
  assumes "cuboid v n0 n1 n2" and "2 \<le> n0" and "2 \<le> n1" and "2 \<le> n2"
    and "Min (set (entries (cast_volume float32 v))) \<le> level"
    and "level \<le> Max (set (entries (cast_volume float32 v)))"
  shows "marching_cubes float32 mc_kernel v level spacing =
     (case mc_kernel (cast_volume float32 v) level of
        (vertices, faces) \<Rightarrow>
          if vertices = [] then Inl RuntimeError
          else Inr (map (\<lambda>p. scale_vertex spacing (flip_vertex p)) vertices,
                    map flip_face faces))"
proof -
  have "shape v = (n0, n1, n2)" using cuboid_shape[OF assms(1)] assms(2,3) by simp
  with assms(2-6) show ?thesis by (simp add: marching_cubes_def Let_def)
qed

lemma constant_volume_range:
  assumes "cuboid v n0 n1 n2" and "0 < n0" and "0 < n1" and "0 < n2" and "values_within c c v"
  shows "Min (set (entries (cast_volume float32 v))) = float32 c
       \<and> Max (set (entries (cast_volume float32 v))) = float32 c"
proof -
  let ?c = "set (entries (cast_volume float32 v))"
  have ne: "?c \<noteq> {}"
    using cuboid_entries_nonempty[OF assms(1-4)] by (simp add: entries_cast_volume)
  have all: "y = float32 c" if "y \<in> ?c" for y
    using assms(5) that unfolding values_within_def by (fastforce simp: entries_cast_volume)
  have "Min ?c \<in> ?c" using ne by (intro Min_in) simp_all
  moreover have "Max ?c \<in> ?c" using ne by (intro Max_in) simp_all
  ultimately show ?thesis using all by blast
qed

lemma zero_field: "values_within 0 0 (sample_values [pi, 2 * pi] [pi, 2 * pi] [pi, 2 * pi])"
  by (simp add: values_within_def entries_def sample_values_def fischer_koch_s_def)

lemma grid_axes_pi: "grid_axes 2 (pi, 2 * pi) = Inr ([pi, 2 * pi], [pi, 2 * pi], [pi, 2 * pi])"
  by (simp add: grid_axes_def linspace_def Let_def upt_rec)

lemma marching_cubes_zero_field:
  assumes "float32 0 = 0"
  shows "marching_cubes float32 mc_kernel
       (gaussian_filter (sample_values [pi, 2 * pi] [pi, 2 * pi] [pi, 2 * pi]) (1 / 2)) 0 spacing =
     (case mc_kernel (cast_volume float32
             (gaussian_filter (sample_values [pi, 2 * pi] [pi, 2 * pi] [pi, 2 * pi]) (1 / 2))) 0 of
        (vertices, faces) \<Rightarrow>
          if vertices = [] then Inl RuntimeError
          else Inr (map (\<lambda>p. scale_vertex spacing (flip_vertex p)) vertices,
                    map flip_face faces))"
proof -
  let ?x = "[pi, 2 * pi]"
  let ?v = "gaussian_filter (sample_values ?x ?x ?x) (1 / 2)"
  have c: "cuboid ?v 2 2 2"
    using smoothed_cuboid[of ?x "1 / 2"] by (simp add: numeral_2_eq_2)
  have w: "values_within 0 0 ?v"
    using gaussian_filter_within[OF sample_values_cuboid _ _ _ zero_field, of "1 / 2"] by simp
  have mm: "Min (set (entries (cast_volume float32 ?v))) = 0
          \<and> Max (set (entries (cast_volume float32 ?v))) = 0"
    using constant_volume_range[OF c _ _ _ w, of float32] assms by simp
  show ?thesis
    by (rule marching_cubes_level_inside[OF c]) (simp_all add: mm)
qed

lemma spacing_of_pi: "spacing_of [pi, 2 * pi] [pi, 2 * pi] [pi, 2 * pi] = Inr (pi, pi, pi)"
  by (simp add: spacing_of_def axis_spacing_def)

lemma generate_surface_zero_field:
  assumes "float32 0 = 0"
  shows "generate_surface float32 mc_kernel 2 (pi, 2 * pi) 0 =
     (case mc_kernel (cast_volume float32
             (gaussian_filter (sample_values [pi, 2 * pi] [pi, 2 * pi] [pi, 2 * pi]) (1 / 2))) 0 of
        (vertices, faces) \<Rightarrow>
          if vertices = [] then Inl RuntimeError
          else Inr (adjust_vertices pi
                      (map (\<lambda>p. scale_vertex (pi, pi, pi) (flip_vertex p)) vertices),
                    map flip_face faces))"
  unfolding generate_surface_eq[OF grid_axes_pi spacing_of_pi]
    marching_cubes_zero_field[of float32, OF assms]
  by (simp split: prod.splits)

lemma floor_cast_mono: "mono (\<lambda>v :: real. real_of_int \<lfloor>v\<rfloor>)"
  by (intro monoI) (simp add: floor_mono)

text \<open>
  Both hypotheses of C2's theorem are met, with the conversion that rounds down to whole
  numbers: a call that returns a mesh (the field vanishes on the lattice of
  \<open>(pi, 2 pi)\<close>, so the level 0 is in range), and a call with an isovalue above 3.
\<close>

theorem empty_isosurface_is_an_error_witness:
  "generate_surface (\<lambda>v. real_of_int \<lfloor>v\<rfloor>) (\<lambda>v level. ([(0, 0, 1)], [(0, 0, 0)])) 2 (pi, 2 * pi) 0
     = Inr ([(2 * pi, pi, pi)], [(0, 0, 0)])
   \<and> [(2 * pi, pi, pi)] \<noteq> ([] :: vertex list)
   \<and> (2::int) \<le> 2
   \<and> mono (\<lambda>v :: real. real_of_int \<lfloor>v\<rfloor>)
   \<and> real_of_int \<lfloor>3 :: real\<rfloor> = 3 \<and> real_of_int \<lfloor>- 3 :: real\<rfloor> = - 3
   \<and> (3 :: real) < 5
   \<and> generate_surface (\<lambda>v. real_of_int \<lfloor>v\<rfloor>) (\<lambda>v level. ([], [])) 2 (- 1, 1) 5
       = Inl ValueError"
proof -
  let ?f = "\<lambda>v :: real. real_of_int \<lfloor>v\<rfloor>"
  let ?k = "\<lambda>(v::volume) (level::real). ([(0, 0, 1)], [(0, 0, 0)]) :: mesh"
  let ?n = "\<lambda>(v::volume) (level::real). ([], []) :: mesh"
  have ok: "generate_surface ?f ?k 2 (pi, 2 * pi) 0 = Inr ([(2 * pi, pi, pi)], [(0, 0, 0)])"
    by (simp add: generate_surface_zero_field adjust_vertices_def scale_vertex_def
          flip_vertex_def flip_face_def)
  from empty_isosurface_is_an_error[of ?f ?k 2 "(pi, 2 * pi)" 0] ok
  have a: "[(2 * pi, pi, pi)] \<noteq> ([] :: vertex list)" by simp
  from empty_isosurface_is_an_error[of ?f ?n 2 "(- 1, 1)" 5] floor_cast_mono
  have b: "generate_surface ?f ?n 2 (- 1, 1) 5 = Inl ValueError" by simp
  from ok a b floor_cast_mono show ?thesis by simp
qed

section \<open>Coordinate mapping\<close>

lemma adjust_vertices_nth:
  assumes "i < length verts"
  shows "adjust_vertices lo verts ! i
     = (fst (verts ! i) + lo, fst (snd (verts ! i)) + lo, snd (snd (verts ! i)) + lo)"
  using assms by (simp add: adjust_vertices_def split_beta)

text \<open>
  C7. Whenever the extraction returns a mesh, \<open>generate_surface\<close> returns it with
  \<open>bounds[0]\<close> added to each of the three coordinates of every vertex; the translation
  itself cannot fail, the number of vertices is kept and the faces are returned as the
  extractor gave them.
\<close>

theorem coordinate_mapping:
  assumes "grid_axes resolution bounds = Inr (x, y, z)"
    and "spacing_of x y z = Inr spacing"
    and "marching_cubes float32 mc_kernel (gaussian_filter (sample_values x y z) (1 / 2))
           iso_value spacing = Inr (vs, fs)"
  shows "\<exists>verts. generate_surface float32 mc_kernel resolution bounds iso_value = Inr (verts, fs)
           \<and> verts = adjust_vertices (fst bounds) vs
           \<and> length verts = length vs
           \<and> (\<forall>i < length vs.
                 verts ! i = (fst (vs ! i) + fst bounds,
                              fst (snd (vs ! i)) + fst bounds,
                              snd (snd (vs ! i)) + fst bounds))"
proof -
  have "generate_surface float32 mc_kernel resolution bounds iso_value
          = Inr (adjust_vertices (fst bounds) vs, fs)"
    using generate_surface_eq[OF assms(1,2)] assms(3) by simp
  moreover have "length (adjust_vertices (fst bounds) vs) = length vs"
    by (simp add: adjust_vertices_def)
  ultimately show ?thesis by (simp add: adjust_vertices_nth)
qed

text \<open>
  A call on the lattice of \<open>(pi, 2 pi)\<close> with a kernel that returns one triangle; the
  extractor reverses the columns and the face, and scales by the spacing \<open>pi\<close>.
\<close>

theorem coordinate_mapping_witness:
  "grid_axes 2 (pi, 2 * pi) = Inr ([pi, 2 * pi], [pi, 2 * pi], [pi, 2 * pi])
   \<and> spacing_of [pi, 2 * pi] [pi, 2 * pi] [pi, 2 * pi] = Inr (pi, pi, pi)
   \<and> marching_cubes (\<lambda>v. v) (\<lambda>v level. ([(0, 0, 1 / 2), (1, 0, 0), (0, 1, 0)], [(0, 1, 2)]))
        (gaussian_filter (sample_values [pi, 2 * pi] [pi, 2 * pi] [pi, 2 * pi]) (1 / 2)) 0 (pi, pi, pi)
       = Inr ([(pi / 2, 0, 0), (0, 0, pi), (0, pi, 0)], [(2, 1, 0)])
   \<and> generate_surface (\<lambda>v. v) (\<lambda>v level. ([(0, 0, 1 / 2), (1, 0, 0), (0, 1, 0)], [(0, 1, 2)]))
        2 (pi, 2 * pi) 0
       = Inr ([(pi / 2 + pi, pi, pi), (pi, pi, pi + pi), (pi, pi + pi, pi)], [(2, 1, 0)])"
proof -
  let ?k = "\<lambda>(v::volume) (level::real). ([(0, 0, 1 / 2), (1, 0, 0), (0, 1, 0)], [(0, 1, 2)]) :: mesh"
  have m: "marching_cubes (\<lambda>v. v) ?k
        (gaussian_filter (sample_values [pi, 2 * pi] [pi, 2 * pi] [pi, 2 * pi]) (1 / 2)) 0 (pi, pi, pi)
       = Inr ([(pi / 2, 0, 0), (0, 0, pi), (0, pi, 0)], [(2, 1, 0)])"
    by (simp add: marching_cubes_zero_field scale_vertex_def flip_vertex_def flip_face_def)
  from coordinate_mapping[OF grid_axes_pi spacing_of_pi m]
  have "generate_surface (\<lambda>v. v) ?k 2 (pi, 2 * pi) 0
       = Inr ([(pi / 2 + pi, pi, pi), (pi, pi, pi + pi), (pi, pi + pi, pi)], [(2, 1, 0)])"
    by (auto simp: adjust_vertices_def)
  with grid_axes_pi spacing_of_pi m show ?thesis by simp
qed

section \<open>Inputs are not validated\<close>

lemma generate_surface_resolution_one:
  "generate_surface float32 mc_kernel 1 bounds iso_value = Inl IndexError"
  by (simp add: generate_surface_def grid_axes_def linspace_def spacing_of_def axis_spacing_def
        Let_def)

lemma grid_axes_one: "grid_axes 1 bounds = Inr ([fst bounds], [fst bounds], [fst bounds])"
  by (simp add: grid_axes_def linspace_def Let_def)

lemma singleton_nth:
  assumes "length xs = 1"
  shows "xs = [xs ! 0]"
  using assms by (cases xs) simp_all

lemma smoothing_one_sample: "gaussian_filter [[[v]]] (1 / 2) = [[[v]]]"
proof -
  let ?g = "gaussian_filter [[[v]]] (1 / 2)"
  have c0: "cuboid [[[v]]] 1 1 1" by (simp add: cuboid_def)
  have w0: "values_within v v [[[v]]]" by (simp add: values_within_def entries_def)
  have c: "cuboid ?g 1 1 1" by (rule gaussian_filter_cuboid[OF c0]) simp_all
  have w: "values_within v v ?g" by (rule gaussian_filter_within[OF c0 _ _ _ w0]) simp_all
  have "?g ! 0 ! 0 ! 0 \<in> set (entries ?g)" using entries_iff[OF c] by auto
  with w have e: "?g ! 0 ! 0 ! 0 = v" unfolding values_within_def by fastforce
  from c have "length ?g = 1" "length (?g ! 0) = 1" "length (?g ! 0 ! 0) = 1"
    by (simp_all add: cuboid_def)
  then have "?g = [?g ! 0]" "?g ! 0 = [?g ! 0 ! 0]" "?g ! 0 ! 0 = [?g ! 0 ! 0 ! 0]"
    by (simp_all only: singleton_nth[symmetric])
  with e show ?thesis by simp
qed

lemma bind_keywords_other:
  assumes "Kw_other name v \<in> set kwargs"
  shows "bind_keywords kwargs params = Inl TypeError"
  using assms by (induction kwargs params rule: bind_keywords.induct) auto

lemma call_with_other_keyword:
  assumes "Kw_other name v \<in> set kwargs"
  shows "call_generate_surface float32 mc_kernel kwargs = Inl TypeError"
  by (simp add: call_generate_surface_def bind_keywords_other[OF assms])

lemma constant_axis:
  assumes "2 \<le> resolution" and "linspace c c resolution = Inr x" and "i < nat resolution"
  shows "x ! i = c"
  using linspace_nth[OF assms] by simp

lemma degenerate_bounds:
  assumes "2 \<le> resolution"
  shows "\<exists>x. grid_axes resolution (c, c) = Inr (x, x, x) \<and> length x = nat resolution
           \<and> values_within (fischer_koch_s c c c) (fischer_koch_s c c c) (sample_values x x x)
           \<and> values_within (fischer_koch_s c c c) (fischer_koch_s c c c)
                (gaussian_filter (sample_values x x x) (1 / 2))
           \<and> spacing_of x x x = Inr (0, 0, 0)"
proof -
  from assms grid_axes_ok[of resolution "(c, c)"]
  obtain x where g: "grid_axes resolution (c, c) = Inr (x, x, x)"
    and len: "length x = nat resolution" and l: "linspace c c resolution = Inr x" by auto
  have xi: "x ! i = c" if "i < length x" for i
    using constant_axis[OF assms l] that len by simp
  have w: "values_within (fischer_koch_s c c c) (fischer_koch_s c c c) (sample_values x x x)"
    by (auto simp: values_within_def entries_iff[OF sample_values_cuboid] sample_values_nth xi)
  from assms len have l2: "2 \<le> length x" by simp
  from l2 have l0: "0 < length x" and "1 < length x" by linarith+
  then have "x ! 0 = c" and "x ! 1 = c" by (simp_all only: xi)
  then have sp: "spacing_of x x x = Inr (0, 0, 0)"
    using spacing_of_ok[OF l2] by simp
  have ws: "values_within (fischer_koch_s c c c) (fischer_koch_s c c c)
              (gaussian_filter (sample_values x x x) (1 / 2))"
    by (rule gaussian_filter_within[OF sample_values_cuboid l0 l0 l0 w])
  from g len w ws sp show ?thesis by blast
qed

lemma generate_surface_degenerate_bounds:
  assumes "2 \<le> resolution" and "iso_value \<noteq> float32 (fischer_koch_s c c c)"
  shows "generate_surface float32 mc_kernel resolution (c, c) iso_value = Inl ValueError"
proof -
  from degenerate_bounds[OF assms(1), of c]
  obtain x where g: "grid_axes resolution (c, c) = Inr (x, x, x)"
    and len: "length x = nat resolution"
    and w: "values_within (fischer_koch_s c c c) (fischer_koch_s c c c)
              (gaussian_filter (sample_values x x x) (1 / 2))"
    and sp: "spacing_of x x x = Inr (0, 0, 0)" by blast
  from assms(1) len have l0: "0 < length x" by simp
  let ?v = "gaussian_filter (sample_values x x x) (1 / 2)"
  have "y = fischer_koch_s c c c" if "y \<in> set (entries ?v)" for y
    using w that unfolding values_within_def by fastforce
  then have e: "float32 y = float32 (fischer_koch_s c c c)" if "y \<in> set (entries ?v)" for y
    using that by simp
  have "(\<forall>y \<in> set (entries ?v). float32 y < iso_value)
        \<or> (\<forall>y \<in> set (entries ?v). iso_value < float32 y)"
  proof (cases "iso_value < float32 (fischer_koch_s c c c)")
    case True
    then show ?thesis by (simp add: e)
  next
    case False
    with assms(2) have "float32 (fischer_koch_s c c c) < iso_value" by simp
    then show ?thesis by (simp add: e)
  qed
  then have "marching_cubes float32 mc_kernel ?v iso_value (0, 0, 0) = Inl ValueError"
    by (rule marching_cubes_level_outside[OF smoothed_cuboid[OF l0] l0 l0 l0])
  then show ?thesis using generate_surface_eq[OF g sp] by simp
qed

lemma pi_ge_three: "3 \<le> pi"
proof -
  have "sin (pi / 6) \<le> pi / 6" by (rule sin_x_le_x) simp
  then show ?thesis by (simp add: sin_30)
qed

lemma fischer_koch_s_222: "0 < fischer_koch_s 2 2 2"
proof -
  have s4: "sin (4::real) = 2 * sin 2 * cos 2" using sin_double[of "2::real"] by simp
  have s8: "sin (8::real) = 2 * sin 4 * cos 4" using sin_double[of "4::real"] by simp
  have f: "fischer_koch_s 2 2 2 = 3 / 4 * sin 8"
    by (simp add: fischer_koch_s_def s8 s4)
  have "sin (8 - 2 * pi + 2 * pi) = sin (8 - 2 * pi)" by (rule sin_periodic)
  then have p: "sin (8::real) = sin (8 - 2 * pi)" by simp
  have "0 < sin (8 - 2 * pi)"
    using pi_less_4 pi_ge_three by (intro sin_gt_zero) simp_all
  with f p show ?thesis by simp
qed

text \<open>
  C3, as the code has it. \<open>generate_surface\<close> rejects none of these inputs up front.
  With resolution 1 the single sample is computed and smoothed, and the call then ends
  with IndexError, raised where the spacing \<^verbatim>\<open>x[1] - x[0]\<close> is computed. With bounds
  \<open>(c, c)\<close> and a resolution of at least 2 the whole volume is sampled and smoothed, every
  value being the function at \<open>(c, c, c)\<close>, the spacing is 0, and for an \<open>iso_value\<close>
  other than that value in single precision the call ends with the ValueError of the
  extractor's level check. The function has no parameter \<^verbatim>\<open>sigma\<close>: a call that passes
  one ends with TypeError.
\<close>

theorem no_input_validation:
  "generate_surface float32 mc_kernel 1 bounds iso_value = Inl IndexError
   \<and> grid_axes 1 bounds = Inr ([fst bounds], [fst bounds], [fst bounds])
   \<and> sample_values [fst bounds] [fst bounds] [fst bounds]
       = [[[fischer_koch_s (fst bounds) (fst bounds) (fst bounds)]]]
   \<and> gaussian_filter [[[fischer_koch_s (fst bounds) (fst bounds) (fst bounds)]]] (1 / 2)
       = [[[fischer_koch_s (fst bounds) (fst bounds) (fst bounds)]]]
   \<and> spacing_of [fst bounds] [fst bounds] [fst bounds] = Inl IndexError
   \<and> (2 \<le> resolution \<longrightarrow>
        (\<exists>x. grid_axes resolution (c, c) = Inr (x, x, x)
           \<and> length (entries (sample_values x x x)) = nat resolution ^ 3
           \<and> values_within (fischer_koch_s c c c) (fischer_koch_s c c c) (sample_values x x x)
           \<and> values_within (fischer_koch_s c c c) (fischer_koch_s c c c)
                (gaussian_filter (sample_values x x x) (1 / 2))
           \<and> spacing_of x x x = Inr (0, 0, 0))
        \<and> (iso_value \<noteq> float32 (fischer_koch_s c c c) \<longrightarrow>
             generate_surface float32 mc_kernel resolution (c, c) iso_value = Inl ValueError))
   \<and> call_generate_surface float32 mc_kernel [Kw_other ''sigma'' sigma] = Inl TypeError"
proof -
  have one: "generate_surface float32 mc_kernel 1 bounds iso_value = Inl IndexError"
    by (rule generate_surface_resolution_one)
  have vol: "sample_values [fst bounds] [fst bounds] [fst bounds]
       = [[[fischer_koch_s (fst bounds) (fst bounds) (fst bounds)]]]"
    by (simp add: sample_values_def)
  have sp: "spacing_of [fst bounds] [fst bounds] [fst bounds] = Inl IndexError"
    by (simp add: spacing_of_def axis_spacing_def)
  have deg: "\<exists>x. grid_axes resolution (c, c) = Inr (x, x, x)
           \<and> length (entries (sample_values x x x)) = nat resolution ^ 3
           \<and> values_within (fischer_koch_s c c c) (fischer_koch_s c c c) (sample_values x x x)
           \<and> values_within (fischer_koch_s c c c) (fischer_koch_s c c c)
                (gaussian_filter (sample_values x x x) (1 / 2))
           \<and> spacing_of x x x = Inr (0, 0, 0)" if "2 \<le> resolution"
    using degenerate_bounds[OF that, of c]
    by (auto simp: entries_sample_values power3_eq_cube)
  have kw: "call_generate_surface float32 mc_kernel [Kw_other ''sigma'' sigma] = Inl TypeError"
    by (rule call_with_other_keyword[of "''sigma''" sigma]) simp
  show ?thesis
    using one grid_axes_one vol smoothing_one_sample sp deg generate_surface_degenerate_bounds kw
    by blast
qed

text \<open>
  The scenarios of C3, with a conversion that changes nothing: bounds \<open>(2, 2)\<close> at the
  default resolution 50 and isovalue 0 (the function is positive at \<open>(2, 2, 2)\<close>),
  resolution 1, and \<^verbatim>\<open>sigma=-1\<close>.
\<close>

theorem no_input_validation_witness:
  "\<forall>mc_kernel. (2::int) \<le> 50 \<and> 0 \<noteq> fischer_koch_s 2 2 2
     \<and> generate_surface (\<lambda>v. v) mc_kernel 50 (2, 2) 0 = Inl ValueError
     \<and> generate_surface (\<lambda>v. v) mc_kernel 1 (- pi, pi) 0 = Inl IndexError
     \<and> call_generate_surface (\<lambda>v. v) mc_kernel [Kw_other ''sigma'' (- 1)] = Inl TypeError"
proof
  fix mc_kernel :: kernel
  have ne: "0 \<noteq> fischer_koch_s 2 2 2" using fischer_koch_s_222 by simp
  from no_input_validation[of "\<lambda>v. v" mc_kernel "(- pi, pi)" 0 50 2 "- 1"] ne
  show "(2::int) \<le> 50 \<and> 0 \<noteq> fischer_koch_s 2 2 2
     \<and> generate_surface (\<lambda>v. v) mc_kernel 50 (2, 2) 0 = Inl ValueError
     \<and> generate_surface (\<lambda>v. v) mc_kernel 1 (- pi, pi) 0 = Inl IndexError
     \<and> call_generate_surface (\<lambda>v. v) mc_kernel [Kw_other ''sigma'' (- 1)] = Inl TypeError"
    by simp
qed

text \<open>
  C3 as stated fails: with resolution 1 the volume of one sample is produced and
  smoothed, and the failure is the IndexError of the spacing, not a rejection before
  sampling.
\<close>

theorem validation_counterexample:
  "grid_axes 1 (- 1, 1) = Inr ([- 1], [- 1], [- 1])
   \<and> sample_values [- 1] [- 1] [- 1] = [[[fischer_koch_s (- 1) (- 1) (- 1)]]]
   \<and> gaussian_filter [[[fischer_koch_s (- 1) (- 1) (- 1)]]] (1 / 2)
       = [[[fischer_koch_s (- 1) (- 1) (- 1)]]]
   \<and> spacing_of [- 1] [- 1] [- 1] = Inl IndexError
   \<and> (\<forall>float32 mc_kernel. generate_surface float32 mc_kernel 1 (- 1, 1) 0 = Inl IndexError)"
  using grid_axes_one[of "(- 1, 1)"]
  by (simp add: generate_surface_resolution_one sample_values_def spacing_of_def axis_spacing_def
        smoothing_one_sample)

section \<open>The smoothing is fixed\<close>

lemma gaussian_radius: "nat \<lfloor>4 * (1 / 2 :: real) + 1 / 2\<rfloor> = 2"
  by simp

lemma length_gaussian_kernel1d: "length (gaussian_kernel1d sigma radius) = 2 * radius + 1"
  by (simp add: gaussian_kernel1d_def Let_def)

lemma exp_minus_8_small: "2 * exp (- 8 :: real) < 1"
proof -
  have "1 + 8 \<le> exp (8::real)" by (rule exp_ge_add_one_self)
  then have "2 < exp (8::real)" by simp
  then have "1 / exp (8::real) < 1 / 2" by (intro divide_strict_left_mono) simp_all
  moreover have "exp (- 8 :: real) = 1 / exp 8" by (simp add: exp_minus inverse_eq_divide)
  ultimately show ?thesis by simp
qed

lemma kernel_half:
  "\<exists>w0 w1 w2. rev (gaussian_kernel1d (1 / 2) 2) = [w0, w1, w2, w1, w0]
      \<and> 0 < w0 \<and> 0 < w1 \<and> 2 * w0 < w2"
proof -
  define S where "S = exp (- 8 :: real) + (exp (- 2) + (1 + (exp (- 2) + exp (- 8))))"
  have S: "0 < S" unfolding S_def by (intro add_pos_pos) simp_all
  have k: "gaussian_kernel1d (1 / 2) 2
      = [exp (- 8) / S, exp (- 2) / S, 1 / S, exp (- 2) / S, exp (- 8) / S]"
    by (simp add: gaussian_kernel1d_def Let_def upt_rec S_def power2_eq_square)
  have "2 * (exp (- 8) / S) < 1 / S"
    using exp_minus_8_small S by (simp add: divide_simps)
  with S k show ?thesis by simp
qed

lemma correlate_two_samples:
  "correlate_at [w0, w1, w2, w1, w0] 2 line 2 0 = (w1 + w2) * line 0 + (2 * w0 + w1) * line 1"
  by (simp add: correlate_at_def reflect_index_def upt_rec algebra_simps)

lemma quarter_lattice_values:
  "sample_values [0, pi / 2] [0, pi / 2] [0, pi / 2]
     = [[[0, 1], [1, - 1]], [[1, - 1], [- 1, 0]]]"
  by (simp add: sample_values_def fischer_koch_s_def)

lemma smoothing_changes_values:
  "gaussian_filter (sample_values [0, pi / 2] [0, pi / 2] [0, pi / 2]) (1 / 2) ! 0 ! 0 ! 0 \<noteq> 0"
proof -
  define V where "V = sample_values [0, pi / 2] [0, pi / 2] [0, pi / 2]"
  let ?G0 = "gaussian_filter1d V (1 / 2) 0"
  let ?G1 = "gaussian_filter1d ?G0 (1 / 2) 1"
  let ?G2 = "gaussian_filter1d ?G1 (1 / 2) 2"
  from kernel_half obtain w0 w1 w2
    where w: "rev (gaussian_kernel1d (1 / 2) 2) = [w0, w1, w2, w1, w0]"
      and pos: "0 < w0" "0 < w1" "2 * w0 < w2" by blast
  define \<alpha> where "\<alpha> = w1 + w2"
  define \<beta> where "\<beta> = 2 * w0 + w1"
  have cV: "cuboid V 2 2 2"
    using sample_values_cuboid[of "[0, pi / 2]" "[0, pi / 2]" "[0, pi / 2]"]
    by (simp add: V_def numeral_2_eq_2)
  have c0: "cuboid ?G0 2 2 2" by (rule gaussian_filter1d_cuboid[OF cV]) simp_all
  have c1: "cuboid ?G1 2 2 2" by (rule gaussian_filter1d_cuboid[OF c0]) simp_all
  have v: "V ! 0 ! 0 ! 0 = 0" "V ! 0 ! 0 ! 1 = 1" "V ! 0 ! 1 ! 0 = 1" "V ! 0 ! 1 ! 1 = - 1"
    "V ! 1 ! 0 ! 0 = 1" "V ! 1 ! 0 ! 1 = - 1" "V ! 1 ! 1 ! 0 = - 1" "V ! 1 ! 1 ! 1 = 0"
    by (simp_all add: V_def quarter_lattice_values)
  have g0: "?G0 ! 0 ! j ! k = \<alpha> * V ! 0 ! j ! k + \<beta> * V ! 1 ! j ! k" if "j < 2" "k < 2" for j k
    using gaussian_filter1d_nth[OF cV _ _ _ that, of 0 "1 / 2" 0]
    by (simp add: gaussian_radius w correlate_two_samples \<alpha>_def \<beta>_def)
  have g1: "?G1 ! 0 ! 0 ! k = \<alpha> * ?G0 ! 0 ! 0 ! k + \<beta> * ?G0 ! 0 ! 1 ! k" if "k < 2" for k
    using gaussian_filter1d_nth[OF c0 _ _ _ _ that, of 0 0 "1 / 2" 1]
    by (simp add: gaussian_radius w correlate_two_samples \<alpha>_def \<beta>_def)
  have g2: "?G2 ! 0 ! 0 ! 0 = \<alpha> * ?G1 ! 0 ! 0 ! 0 + \<beta> * ?G1 ! 0 ! 0 ! 1"
    using gaussian_filter1d_nth[OF c1, of 0 0 0 "1 / 2" 2]
    by (simp add: gaussian_radius w correlate_two_samples \<alpha>_def \<beta>_def)
  have b00: "?G0 ! 0 ! 0 ! 0 = \<beta>" using g0[of 0 0] by (simp add: v del: One_nat_def)
  have b01: "?G0 ! 0 ! 0 ! 1 = \<alpha> - \<beta>" using g0[of 0 1] by (simp add: v del: One_nat_def)
  have b10: "?G0 ! 0 ! 1 ! 0 = \<alpha> - \<beta>" using g0[of 1 0] by (simp add: v del: One_nat_def)
  have b11: "?G0 ! 0 ! 1 ! 1 = - \<alpha>" using g0[of 1 1] by (simp add: v del: One_nat_def)
  have a0: "?G1 ! 0 ! 0 ! 0 = \<alpha> * \<beta> + \<beta> * (\<alpha> - \<beta>)" using g1[of 0] by (simp add: b00 b10 del: One_nat_def)
  have a1: "?G1 ! 0 ! 0 ! 1 = \<alpha> * (\<alpha> - \<beta>) + \<beta> * (- \<alpha>)" using g1[of 1] by (simp add: b01 b11 del: One_nat_def)
  have "?G2 ! 0 ! 0 ! 0 = \<alpha> * (\<alpha> * \<beta> + \<beta> * (\<alpha> - \<beta>)) + \<beta> * (\<alpha> * (\<alpha> - \<beta>) + \<beta> * (- \<alpha>))"
    by (simp only: g2 a0 a1)
  also have "\<dots> = 3 * (\<alpha> * \<beta> * (\<alpha> - \<beta>))" by (simp add: algebra_simps)
  finally have G: "?G2 ! 0 ! 0 ! 0 = 3 * (\<alpha> * \<beta> * (\<alpha> - \<beta>))" .
  have "0 < \<alpha>" "0 < \<beta>" "0 < \<alpha> - \<beta>"
    using pos by (simp_all add: \<alpha>_def \<beta>_def)
  then have "0 < \<alpha> * \<beta> * (\<alpha> - \<beta>)" by simp
  with G have "0 < ?G2 ! 0 ! 0 ! 0" by simp
  moreover have "gaussian_filter V (1 / 2) = ?G2" by (simp add: gaussian_filter_def)
  ultimately show ?thesis unfolding V_def by simp
qed

lemma smoothing_is_not_identity:
  "gaussian_filter (sample_values [0, pi / 2] [0, pi / 2] [0, pi / 2]) (1 / 2)
     \<noteq> sample_values [0, pi / 2] [0, pi / 2] [0, pi / 2]"
proof
  assume "gaussian_filter (sample_values [0, pi / 2] [0, pi / 2] [0, pi / 2]) (1 / 2)
     = sample_values [0, pi / 2] [0, pi / 2] [0, pi / 2]"
  then have "gaussian_filter (sample_values [0, pi / 2] [0, pi / 2] [0, pi / 2]) (1 / 2) ! 0 ! 0 ! 0
     = sample_values [0, pi / 2] [0, pi / 2] [0, pi / 2] ! 0 ! 0 ! 0" by simp
  then show False using smoothing_changes_values by (simp add: quarter_lattice_values)
qed

text \<open>
  C8, as the code has it. The smoothing is not a parameter: a call that passes any
  keyword other than \<^verbatim>\<open>resolution\<close>, \<^verbatim>\<open>bounds\<close> and \<^verbatim>\<open>iso_value\<close> ends with TypeError,
  and every call that reaches the extractor hands it the sampled volume filtered along
  the three axes with sigma 1/2, a kernel of five weights. The library would pass a
  volume through at sigma 0, but the pipeline never asks for that; at sigma 1/2 the
  volume does change.
\<close>

theorem smoothing_is_fixed:
  "(Kw_other name val \<in> set kwargs
      \<longrightarrow> call_generate_surface float32 mc_kernel kwargs = Inl TypeError)
   \<and> (grid_axes resolution bounds = Inr (x, y, z) \<longrightarrow> spacing_of x y z = Inr spacing \<longrightarrow>
        generate_surface float32 mc_kernel resolution bounds iso_value =
          (case marching_cubes float32 mc_kernel
                  (gaussian_filter1d (gaussian_filter1d (gaussian_filter1d
                     (sample_values x y z) (1 / 2) 0) (1 / 2) 1) (1 / 2) 2)
                  iso_value spacing of
             Inl e \<Rightarrow> Inl e
           | Inr (verts, faces) \<Rightarrow> Inr (adjust_vertices (fst bounds) verts, faces)))
   \<and> length (gaussian_kernel1d (1 / 2) (nat \<lfloor>4 * (1 / 2 :: real) + 1 / 2\<rfloor>)) = 5
   \<and> gaussian_filter v 0 = v
   \<and> gaussian_filter (sample_values [0, pi / 2] [0, pi / 2] [0, pi / 2]) (1 / 2)
       \<noteq> sample_values [0, pi / 2] [0, pi / 2] [0, pi / 2]"
proof -
  have f: "gaussian_filter v (1 / 2)
      = gaussian_filter1d (gaussian_filter1d (gaussian_filter1d v (1 / 2) 0) (1 / 2) 1) (1 / 2) 2"
    for v by (simp add: gaussian_filter_def)
  have z: "gaussian_filter v 0 = v" by (simp add: gaussian_filter_def)
  show ?thesis
    using call_with_other_keyword[of name val kwargs float32 mc_kernel]
      generate_surface_eq[of resolution bounds x y z spacing float32 mc_kernel iso_value]
      smoothing_is_not_identity z
    by (simp add: f length_gaussian_kernel1d gaussian_radius)
qed

text \<open>
  A call with \<^verbatim>\<open>sigma=0\<close> next to a resolution, and a call on the lattice of
  \<open>(pi, 2 pi)\<close> whose kernel finds nothing.
\<close>

theorem smoothing_is_fixed_witness:
  "Kw_other ''sigma'' 0 \<in> set [Kw_resolution 30, Kw_other ''sigma'' 0]
   \<and> call_generate_surface (\<lambda>v. v) (\<lambda>v level. ([], [])) [Kw_resolution 30, Kw_other ''sigma'' 0]
       = Inl TypeError
   \<and> grid_axes 2 (pi, 2 * pi) = Inr ([pi, 2 * pi], [pi, 2 * pi], [pi, 2 * pi])
   \<and> spacing_of [pi, 2 * pi] [pi, 2 * pi] [pi, 2 * pi] = Inr (pi, pi, pi)
   \<and> generate_surface (\<lambda>v. v) (\<lambda>v level. ([], [])) 2 (pi, 2 * pi) 0 = Inl RuntimeError"
proof -
  let ?n = "\<lambda>(v::volume) (level::real). ([], []) :: mesh"
  from smoothing_is_fixed[of "''sigma''" 0 "[Kw_resolution 30, Kw_other ''sigma'' 0]" "\<lambda>v. v" ?n]
  have "call_generate_surface (\<lambda>v. v) ?n [Kw_resolution 30, Kw_other ''sigma'' 0] = Inl TypeError"
    by simp
  moreover have "generate_surface (\<lambda>v. v) ?n 2 (pi, 2 * pi) 0 = Inl RuntimeError"
    by (simp add: generate_surface_zero_field)
  ultimately show ?thesis using grid_axes_pi spacing_of_pi by simp
qed

text \<open>
  C8 as stated fails: a call with \<^verbatim>\<open>sigma=0\<close> is not a pass-through, it returns no
  mesh at all, whatever the extraction kernel and the conversion to single precision.
\<close>

theorem sigma_keyword_counterexample:
  "\<not> (\<exists>float32 mc_kernel mesh.
         call_generate_surface float32 mc_kernel [Kw_other ''sigma'' 0] = Inr mesh)"
  by (simp add: call_generate_surface_def)

section \<open>The resolution of the interactive shell\<close>

lemma main_resolution_cases:
  "main_resolution line =
     (if strip line = [] then 50
      else case py_int (strip line) of None \<Rightarrow> 50 | Some r \<Rightarrow> max 30 (min 100 r))"
  by (simp add: main_resolution_def Let_def)

text \<open>
  C10. Whatever line the user enters, the resolution \<^verbatim>\<open>main\<close> passes on lies in 30..100:
  an empty line and a line \<^verbatim>\<open>int\<close> rejects give 50, an integer is clamped to
  \<open>max 30 (min 100 r)\<close>; the call is \<open>generate_surface\<close> at that resolution with bounds
  \<open>(-pi, pi)\<close> and isovalue 0.
\<close>

theorem interactive_resolution:
  "30 \<le> main_resolution line \<and> main_resolution line \<le> 100
   \<and> (strip line = [] \<or> py_int (strip line) = None \<longrightarrow> main_resolution line = 50)
   \<and> (\<forall>r. strip line \<noteq> [] \<and> py_int (strip line) = Some r
          \<longrightarrow> main_resolution line = max 30 (min 100 r))
   \<and> main_surface float32 mc_kernel line
       = generate_surface float32 mc_kernel (main_resolution line) (- pi, pi) 0"
  by (auto simp: main_resolution_cases main_surface_def call_generate_surface_def
        split: option.splits)

text \<open>An empty line, a word, and integers below, inside and above the range.\<close>

theorem interactive_resolution_witness:
  "strip '''' = [] \<and> main_resolution '''' = 50
   \<and> py_int (strip ''abc'') = None \<and> main_resolution ''abc'' = 50
   \<and> strip '' 7 '' \<noteq> [] \<and> py_int (strip '' 7 '') = Some 7 \<and> main_resolution '' 7 '' = 30
   \<and> py_int (strip ''1_000'') = Some 1000 \<and> main_resolution ''1_000'' = 100
   \<and> py_int (strip ''-64'') = Some (- 64) \<and> main_resolution ''-64'' = 30
   \<and> py_int (strip ''64'') = Some 64 \<and> main_resolution ''64'' = 64"
proof -
  have s: "strip '''' = []" "strip ''abc'' = ''abc''" "strip '' 7 '' = ''7''"
    "strip ''1_000'' = ''1_000''" "strip ''-64'' = ''-64''" "strip ''64'' = ''64''"
    by (simp_all add: strip_def is_space_def)
  have p: "py_int ''abc'' = None" "py_int ''7'' = Some 7" "py_int ''1_000'' = Some 1000"
    "py_int ''-64'' = Some (- 64)" "py_int ''64'' = Some 64"
    by (simp_all add: py_int_def strip_def is_space_def unsigned_def is_digit_def digit_value_def)
  note t = interactive_resolution
  from t[of "''''"] s have "main_resolution '''' = 50" by simp
  moreover from t[of "''abc''"] s p have "main_resolution ''abc'' = 50" by simp
  moreover from t[of "'' 7 ''"] s p have "main_resolution '' 7 '' = 30" by simp
  moreover from t[of "''1_000''"] s p have "main_resolution ''1_000'' = 100" by simp
  moreover from t[of "''-64''"] s p have "main_resolution ''-64'' = 30" by simp
  moreover from t[of "''64''"] s p have "main_resolution ''64'' = 64" by simp
  ultimately show ?thesis using s p by simp
qed

section \<open>Edge interpolation stays on the edge\<close>

lemma segment_bounds:
  fixes p q t :: real
  assumes "0 \<le> t" and "t \<le> 1"
  shows "min p q \<le> p + t * (q - p) \<and> p + t * (q - p) \<le> max p q"
proof (cases "p \<le> q")
  case True
  then have "0 \<le> t * (q - p)" using assms(1) by simp
  moreover have "t * (q - p) \<le> 1 * (q - p)" using True assms(2) by (intro mult_right_mono) simp_all
  ultimately show ?thesis using True by simp
next
  case False
  then have "0 \<le> t * (p - q)" using assms(1) by simp
  moreover have "t * (p - q) \<le> 1 * (p - q)" using False assms(2) by (intro mult_right_mono) simp_all
  ultimately show ?thesis using False by (simp add: algebra_simps)
qed

lemma cut_edge_ratio:
  assumes "edge_cut isoValue v0 v1"
  shows "v1 \<noteq> v0 \<and> 0 \<le> (isoValue - v0) / (v1 - v0) \<and> (isoValue - v0) / (v1 - v0) \<le> 1"
proof (cases "v0 < isoValue")
  case True
  with assms have "isoValue \<le> v1" by (simp add: edge_cut_def inside_def)
  with True show ?thesis by (simp add: divide_simps)
next
  case False
  with assms have "v1 < isoValue" by (simp add: edge_cut_def inside_def)
  with False show ?thesis by (simp add: divide_simps)
qed

lemma edge_vertex_components:
  "edge_vertex (dx, dy, dz) (a0, b0, c0) (a1, b1, c1) t
     = (a0 * dx + t * (a1 * dx - a0 * dx),
        b0 * dy + t * (b1 * dy - b0 * dy),
        c0 * dz + t * (c1 * dz - c0 * dz))"
  by (simp add: edge_vertex_def scale_vertex_def algebra_simps)

text \<open>
  C5, on the interpolation as the spec words it. On a cut edge the parameter lies in
  \<open>[0, 1]\<close>, the interpolated value lies between the two corner values (it is the
  isovalue), and each coordinate of the vertex lies between the coordinates of the two
  scaled corners.
\<close>

theorem interpolation_within_edge:
  assumes "edge_cut isoValue v0 v1"
  shows "0 \<le> interpolation_parameter isoValue v0 v1
       \<and> interpolation_parameter isoValue v0 v1 \<le> 1
       \<and> min v0 v1 \<le> interpolated_value v0 v1 (interpolation_parameter isoValue v0 v1)
       \<and> interpolated_value v0 v1 (interpolation_parameter isoValue v0 v1) \<le> max v0 v1
       \<and> interpolated_value v0 v1 (interpolation_parameter isoValue v0 v1) = isoValue
       \<and> (\<exists>a b c. edge_vertex (dx, dy, dz) (a0, b0, c0) (a1, b1, c1)
                       (interpolation_parameter isoValue v0 v1) = (a, b, c)
              \<and> min (a0 * dx) (a1 * dx) \<le> a \<and> a \<le> max (a0 * dx) (a1 * dx)
              \<and> min (b0 * dy) (b1 * dy) \<le> b \<and> b \<le> max (b0 * dy) (b1 * dy)
              \<and> min (c0 * dz) (c1 * dz) \<le> c \<and> c \<le> max (c0 * dz) (c1 * dz))"
proof -
  let ?r = "(isoValue - v0) / (v1 - v0)"
  let ?t = "interpolation_parameter isoValue v0 v1"
  from cut_edge_ratio[OF assms] have ne: "v1 \<noteq> v0" and r0: "0 \<le> ?r" and r1: "?r \<le> 1"
    by simp_all
  have t: "?t = ?r" using r0 r1 by (simp add: interpolation_parameter_def)
  have t0: "0 \<le> ?t" and t1: "?t \<le> 1" using r0 r1 t by simp_all
  have val: "interpolated_value v0 v1 ?t = isoValue"
    using ne by (simp add: t interpolated_value_def)
  have rng: "min v0 v1 \<le> interpolated_value v0 v1 ?t \<and> interpolated_value v0 v1 ?t \<le> max v0 v1"
    unfolding interpolated_value_def by (rule segment_bounds[OF t0 t1])
  note a = segment_bounds[OF t0 t1, of "a0 * dx" "a1 * dx"]
  note b = segment_bounds[OF t0 t1, of "b0 * dy" "b1 * dy"]
  note c = segment_bounds[OF t0 t1, of "c0 * dz" "c1 * dz"]
  show ?thesis
    using t0 t1 val rng a b c by (simp add: edge_vertex_components)
qed

text \<open>An edge from the value -1 to the value 3, cut at the isovalue 0.\<close>

theorem interpolation_within_edge_witness:
  "edge_cut 0 (- 1) 3
   \<and> interpolation_parameter 0 (- 1) 3 = 1 / 4
   \<and> interpolated_value (- 1) 3 (interpolation_parameter 0 (- 1) 3) = 0
   \<and> edge_vertex (2, 2, 2) (0, 0, 0) (1, 0, 0) (interpolation_parameter 0 (- 1) 3) = (1 / 2, 0, 0)"
proof -
  have c: "edge_cut 0 (- 1) 3" by (simp add: edge_cut_def inside_def)
  have t: "interpolation_parameter 0 (- 1) 3 = 1 / 4" by (simp add: interpolation_parameter_def)
  from interpolation_within_edge[OF c, of 2 2 2 0 0 0 1 0 0]
  have "interpolated_value (- 1) 3 (interpolation_parameter 0 (- 1) 3) = 0" by simp
  with c t show ?thesis by (simp add: edge_vertex_components)
qed

end
